theory Spec2Isabelle
  imports Main
begin

section \<open>Navigation bar: the unread-notification counter\<close>

text \<open>
  The model follows the second \<open>Navbar\<close> of \<open>src/components/layout/navbar.tsx\<close>
  (the one that uses \<open>useAuth\<close>, \<open>useSocket\<close> and \<open>useNotificationCount\<close>).
  The component is event driven: a render with a new \<open>userId\<close> or a new \<open>socket\<close> re-runs
  the effect whose dependency changed, a pending \<open>apiGet\<close> settles later, and the socket
  delivers \<open>notification:new\<close> events to the handlers registered on it. Each of these is an
  event of the step function below; every piece of mutable state of the component and of
  its collaborators (the counter, the socket's handler list, the toasts, the console) is a
  field of the state record.
\<close>

subsection \<open>Data\<close>

text \<open>
  Modelled from the spec: the type \<open>Notification\<close> is imported from
  \<open>@/types/notification\<close>, which is not among the sources. The spec gives its shape as
  \<open>{ type, actor: { handle: optional string } }\<close>. The \<open>type\<close> is kept a string, as it
  arrives over the wire, so that values outside the enumerated set are inputs of the model
  too.
\<close>

record actor =
  handle :: "string option"

record notification =
  ntype :: string
  actor :: actor

text \<open>The outcome of an awaited promise: it resolves with a value or rejects.\<close>

datatype 'a settled = Fulfilled 'a | Rejected

text \<open>What \<open>console.log\<close> receives: the fetched array, or a message.\<close>

datatype log_entry = LogData "notification list" | LogText string

text \<open>A toast of \<open>sonner\<close>: \<open>toast(title, {description})\<close> and \<open>toast.success(title, {description})\<close>.\<close>

datatype toast = Toast string string | ToastSuccess string string

text \<open>
  One run of the first effect creates one closure: the \<open>userId\<close> it was rendered with and
  its own local variable \<open>isMounted\<close>.
\<close>

record seed_closure =
  c_userId :: "string option"
  isMounted :: bool

text \<open>
  \<open>userId\<close> is \<open>string | null | undefined\<close> in the source. The model has one absent value,
  \<open>None\<close>, for both \<open>null\<close> and \<open>undefined\<close>: the body of the effect treats them alike, and a
  render in which the one replaces the other is not an event of the model.
\<close>

record navbar_state =
  userId :: "string option"
  socket :: "nat option"
  alive :: bool
  unreadCount :: nat
  inflight :: "(nat \<times> seed_closure) list"
  next_req :: nat
  listeners :: "(nat \<times> nat) list"
  cleanup :: "(nat \<times> nat) option"
  next_handler :: nat
  toasts :: "toast list"
  console :: "log_entry list"

text \<open>
  \<open>socket\<close> is the identity of the socket instance returned by \<open>useSocket\<close> (\<open>None\<close> for
  \<open>null\<close>), a hook that is not among the sources, so which socket a render sees is an
  input of the model; \<open>alive\<close> says that the component is mounted; \<open>inflight\<close> holds the pending
  \<open>apiGet\<close> calls, each with the closure that awaits it; \<open>listeners\<close> is the list of
  \<open>(socket, handler)\<close> pairs registered for \<open>notification:new\<close>, a handler being identified
  by the number of the effect run that created it; \<open>cleanup\<close> is the cleanup function that
  the last run of the second effect returned, as the pair it passes to \<open>socket.off\<close>.
\<close>

subsection \<open>JavaScript operators\<close>

text \<open>Truthiness of a \<open>string | null | undefined\<close>: only a non-empty string is truthy.\<close>

definition truthy :: "string option \<Rightarrow> bool" where
  "truthy v = (case v of None \<Rightarrow> False | Some s \<Rightarrow> s \<noteq> [])"

text \<open>The nullish coalescing operator \<open>a ?? b\<close>.\<close>

definition nullish :: "'a option \<Rightarrow> 'a \<Rightarrow> 'a" where
  "nullish a b = (case a of None \<Rightarrow> b | Some x \<Rightarrow> x)"

subsection \<open>The hook \<open>useNotificationCount\<close>\<close>

text \<open>
  Modelled from the spec: \<open>setUnreadCount\<close> is returned by the hook
  \<open>useNotificationCount\<close> (\<open>@/hooks/use-notification-count\<close>), which is not among the
  sources. The spec describes the counter as one integer cell that the seed sets
  (\<open>set unreadCount = ...\<close>).
\<close>

definition setUnreadCount :: "nat \<Rightarrow> navbar_state \<Rightarrow> navbar_state" where
  "setUnreadCount n st = st\<lparr>unreadCount := n\<rparr>"

text \<open>
  Modelled from the spec: \<open>incrementUnread\<close> is returned by the same hook, not among the
  sources. The spec has a push event increment \<open>unreadCount\<close> by 1.
\<close>

definition incrementUnread :: "navbar_state \<Rightarrow> navbar_state" where
  "incrementUnread st = st\<lparr>unreadCount := unreadCount st + 1\<rparr>"

subsection \<open>The first effect: seeding the counter\<close>

text \<open>
  \<open>loadUnreadNotifications\<close> is an async function. Its first part runs synchronously up to
  the \<open>await\<close>: without a user it resets the counter and returns, otherwise it issues the
  request, which joins \<open>inflight\<close> together with the closure.
\<close>

definition loadUnreadNotifications :: "seed_closure \<Rightarrow> navbar_state \<Rightarrow> navbar_state" where
  "loadUnreadNotifications c st =
     (if \<not> truthy (c_userId c)
      then (if isMounted c then setUnreadCount 0 st else st)
      else st\<lparr>inflight := inflight st @ [(next_req st, c)],
              next_req := next_req st + 1\<rparr>)"

text \<open>
  Its second part runs when the request settles: the \<open>try\<close> branch after the \<open>await\<close> for a
  fulfilled request, the \<open>catch\<close> branch for a rejected one.
\<close>

definition loadUnreadNotifications_resume ::
    "seed_closure \<Rightarrow> notification list settled \<Rightarrow> navbar_state \<Rightarrow> navbar_state" where
  "loadUnreadNotifications_resume c r st =
     (case r of
        Fulfilled data \<Rightarrow>
          if \<not> isMounted c then st
          else setUnreadCount (length data) (st\<lparr>console := console st @ [LogData data]\<rparr>)
      | Rejected \<Rightarrow>
          if \<not> isMounted c then st
          else st\<lparr>console := console st @ [LogText ''Error ocuured'']\<rparr>)"

text \<open>
  The effect body: \<open>let isMounted = true\<close>, the declaration of the function, and its call.
  The body returns nothing, so the effect has no cleanup, and no statement of the source
  assigns \<open>isMounted\<close> again.
\<close>

definition seed_effect :: "string option \<Rightarrow> navbar_state \<Rightarrow> navbar_state" where
  "seed_effect uid st = loadUnreadNotifications \<lparr>c_userId = uid, isMounted = True\<rparr> st"

subsection \<open>The second effect: the subscription\<close>

text \<open>
  The handler of \<open>notification:new\<close>. The \<open>description\<close> of its toast is the conditional
  expression over the two template literals.
\<close>

definition toast_description :: "notification \<Rightarrow> string" where
  "toast_description payload =
     (if ntype payload = ''REPLY_ON_THREAD''
      then nullish (handle (actor payload)) ''Someone'' @ '' commented to your thread''
      else nullish (handle (actor payload)) ''Someone'' @ '' liked your thread'')"

definition handleNewNotification :: "notification \<Rightarrow> navbar_state \<Rightarrow> navbar_state" where
  "handleNewNotification payload st =
     (let st1 = incrementUnread st
      in st1\<lparr>toasts := toasts st1 @ [Toast ''New Notification'' (toast_description payload)]\<rparr>)"

text \<open>
  The effect body: nothing without a socket; otherwise a fresh handler is registered with
  \<open>socket.on\<close> and the returned cleanup removes that same handler with \<open>socket.off\<close>.
\<close>

definition subscribe_effect :: "navbar_state \<Rightarrow> navbar_state" where
  "subscribe_effect st =
     (case socket st of
        None \<Rightarrow> st\<lparr>cleanup := None\<rparr>
      | Some s \<Rightarrow>
          st\<lparr>listeners := listeners st @ [(s, next_handler st)],
             cleanup := Some (s, next_handler st),
             next_handler := next_handler st + 1\<rparr>)"

text \<open>\<open>socket.off(event, handler)\<close> removes the first registration of that handler.\<close>

definition run_cleanup :: "navbar_state \<Rightarrow> navbar_state" where
  "run_cleanup st =
     (case cleanup st of
        None \<Rightarrow> st
      | Some l \<Rightarrow> st\<lparr>listeners := remove1 l (listeners st), cleanup := None\<rparr>)"

text \<open>The socket calls every handler registered on it, in order of registration.\<close>

definition emit :: "nat \<Rightarrow> notification \<Rightarrow> navbar_state \<Rightarrow> navbar_state" where
  "emit s payload st =
     fold (\<lambda>l. handleNewNotification payload) (filter (\<lambda>l. fst l = s) (listeners st)) st"

subsection \<open>The component as a transition system\<close>

datatype event =
    SessionChange "string option"
  | SocketChange "nat option"
  | HookChange
  | FetchSettled nat "notification list settled"
  | Push nat notification
  | Unmount

text \<open>
  \<open>SessionChange\<close> and \<open>SocketChange\<close> are renders in which \<open>useAuth\<close> or \<open>useSocket\<close> return
  a new value: React re-runs an effect when one of its dependencies differs from the last
  render, after running the cleanup the previous run returned. The first effect depends on
  \<open>[userId]\<close>, the second on \<open>[socket, incrementUnread]\<close>; \<open>HookChange\<close> is a render in which
  \<open>incrementUnread\<close> is a new function. \<open>FetchSettled\<close> settles a pending request, \<open>Push\<close> is
  a \<open>notification:new\<close> event on a socket, \<open>Unmount\<close> tears the component down, which runs
  the cleanups and no effect.
\<close>

definition step :: "event \<Rightarrow> navbar_state \<Rightarrow> navbar_state" where
  "step e st =
     (case e of
        SessionChange u \<Rightarrow>
          if alive st \<and> u \<noteq> userId st then seed_effect u (st\<lparr>userId := u\<rparr>) else st
      | SocketChange s \<Rightarrow>
          if alive st \<and> s \<noteq> socket st
          then subscribe_effect ((run_cleanup st)\<lparr>socket := s\<rparr>) else st
      | HookChange \<Rightarrow>
          if alive st then subscribe_effect (run_cleanup st) else st
      | FetchSettled rid r \<Rightarrow>
          (case map_of (inflight st) rid of
             None \<Rightarrow> st
           | Some c \<Rightarrow>
               loadUnreadNotifications_resume c r
                 (st\<lparr>inflight := filter (\<lambda>p. fst p \<noteq> rid) (inflight st)\<rparr>))
      | Push s payload \<Rightarrow> emit s payload st
      | Unmount \<Rightarrow> if alive st then (run_cleanup st)\<lparr>alive := False\<rparr> else st)"

fun run :: "event list \<Rightarrow> navbar_state \<Rightarrow> navbar_state" where
  "run [] st = st"
| "run (e # es) st = run es (step e st)"

text \<open>Mounting: the hook's initial counter is 0, then both effects run in source order.\<close>

definition mount :: "string option \<Rightarrow> nat option \<Rightarrow> navbar_state" where
  "mount uid sock =
     subscribe_effect (seed_effect uid
       \<lparr>userId = uid, socket = sock, alive = True, unreadCount = 0, inflight = [],
        next_req = 0, listeners = [], cleanup = None, next_handler = 0,
        toasts = [], console = []\<rparr>)"

section \<open>Profile page: the update form\<close>

text \<open>
  The model follows \<open>src/app/profile/page.tsx\<close>. A JavaScript string is a sequence of
  UTF-16 code units; a \<open>char\<close> stands for a code unit below 256, so the model covers the
  strings whose characters lie in U+0000..U+00FF, and \<open>trim\<close> and \<open>toLowerCase\<close> are the
  built-in methods restricted to that range.
\<close>

subsection \<open>String methods\<close>

text \<open>
  \<open>String.prototype.trim\<close> strips white space and line terminators from both ends. Below
  U+0100 these are tab, line feed, vertical tab, form feed, carriage return, space and the
  no-break space.
\<close>

definition isWhiteSpace :: "char \<Rightarrow> bool" where
  "isWhiteSpace c =
     (c \<in> {CHR 0x09, CHR 0x0A, CHR 0x0B, CHR 0x0C, CHR 0x0D, CHR 0x20, CHR 0xA0})"

definition trim :: "string \<Rightarrow> string" where
  "trim s = rev (dropWhile isWhiteSpace (rev (dropWhile isWhiteSpace s)))"

text \<open>
  \<open>String.prototype.toLowerCase\<close>: below U+0100 the upper-case letters are A to Z and
  U+00C0 to U+00DE without the multiplication sign U+00D7; each has its lower-case letter
  32 code points above.
\<close>

definition isUpperCase :: "char \<Rightarrow> bool" where
  "isUpperCase c =
     (let n = (of_char c :: nat)
      in (0x41 \<le> n \<and> n \<le> 0x5A) \<or> (0xC0 \<le> n \<and> n \<le> 0xDE \<and> n \<noteq> 0xD7))"

definition toLowerCase :: "string \<Rightarrow> string" where
  "toLowerCase s =
     map (\<lambda>c. if isUpperCase c then char_of ((of_char c :: nat) + 0x20) else c) s"

subsection \<open>The schema\<close>

text \<open>
  \<open>optionalText\<close> is \<open>z.string()\<close> followed by two transforms, made optional: \<open>undefined\<close>
  passes through, a string is trimmed and then an empty result becomes \<open>undefined\<close>.
\<close>

definition optionalText :: "string option \<Rightarrow> string option" where
  "optionalText raw =
     (case raw of
        None \<Rightarrow> None
      | Some v \<Rightarrow> (\<lambda>v. if v = '''' then None else Some v) ((\<lambda>v. trim v) v))"

record ProfileFormValues =
  v_displayName :: "string option"
  v_handle :: "string option"
  v_bio :: "string option"
  v_avatarUrl :: "string option"

definition ProfileSchema :: "ProfileFormValues \<Rightarrow> ProfileFormValues" where
  "ProfileSchema input =
     \<lparr>v_displayName = optionalText (v_displayName input),
      v_handle = optionalText (v_handle input),
      v_bio = optionalText (v_bio input),
      v_avatarUrl = optionalText (v_avatarUrl input)\<rparr>"

record UserResponse =
  r_id :: int
  r_clerkUserId :: string
  r_displayName :: "string option"
  r_email :: "string option"
  r_handle :: "string option"
  r_avatarUrl :: "string option"
  r_bio :: "string option"

subsection \<open>Submitting\<close>

text \<open>
  The state of the page: the field values held by the form, the two flags, the bodies of
  the \<open>PATCH /api/me\<close> requests sent so far, and the toasts shown.
\<close>

record profile_state =
  form_values :: ProfileFormValues
  isLoading :: bool
  isSaving :: bool
  patches :: "(string \<rightharpoonup> string) list"
  notices :: "toast list"

text \<open>
  The payload starts as the empty object; each \<open>if (values.x) payload.x = ...\<close> assigns a
  key when the value is truthy.
\<close>

definition onSubmit_payload :: "ProfileFormValues \<Rightarrow> (string \<rightharpoonup> string)" where
  "onSubmit_payload values =
     (let payload = Map.empty;
          payload = (if truthy (v_displayName values)
                     then payload(''displayName'' \<mapsto> the (v_displayName values))
                     else payload);
          payload = (if truthy (v_handle values)
                     then payload(''handle'' \<mapsto> toLowerCase (the (v_handle values)))
                     else payload);
          payload = (if truthy (v_bio values)
                     then payload(''bio'' \<mapsto> the (v_bio values))
                     else payload);
          payload = (if truthy (v_avatarUrl values)
                     then payload(''avatarUrl'' \<mapsto> the (v_avatarUrl values))
                     else payload)
      in payload)"

text \<open>
  \<open>onSubmit\<close> up to the \<open>await\<close>: the saving flag is raised and the request is sent.
\<close>

definition onSubmit :: "ProfileFormValues \<Rightarrow> profile_state \<Rightarrow> profile_state" where
  "onSubmit values st =
     st\<lparr>isSaving := True, patches := patches st @ [onSubmit_payload values]\<rparr>"

text \<open>
  \<open>onSubmit\<close> after the \<open>await\<close>: a fulfilled request resets the form to the returned record
  and shows the success toast; the \<open>catch\<close> block of a rejected one is empty; \<open>finally\<close>
  lowers the saving flag in both cases.
\<close>

definition onSubmit_resume :: "UserResponse settled \<Rightarrow> profile_state \<Rightarrow> profile_state" where
  "onSubmit_resume r st =
     (let st1 =
        (case r of
           Fulfilled apiResponse \<Rightarrow>
             st\<lparr>form_values :=
                  \<lparr>v_displayName = Some (nullish (r_displayName apiResponse) ''''),
                   v_handle = Some (nullish (r_handle apiResponse) ''''),
                   v_bio = Some (nullish (r_bio apiResponse) ''''),
                   v_avatarUrl = Some (nullish (r_avatarUrl apiResponse) '''')\<rparr>,
                notices := notices st @
                  [ToastSuccess ''Profile updated successfully''
                     ''your changes have been saved'']\<rparr>
         | Rejected \<Rightarrow> st)
      in st1\<lparr>isSaving := False\<rparr>)"

text \<open>
  \<open>form.handleSubmit(onSubmit)\<close>: the resolver parses the field values with the schema and
  \<open>onSubmit\<close> receives the parsed values; the fields themselves keep what was typed.
\<close>

definition handleSubmit :: "profile_state \<Rightarrow> profile_state" where
  "handleSubmit st = onSubmit (ProfileSchema (form_values st)) st"

section \<open>Invariants and sample notifications\<close>

text \<open>Every pending request is awaited by a closure whose \<open>isMounted\<close> is still true.\<close>

definition all_mounted :: "navbar_state \<Rightarrow> bool" where
  "all_mounted st = list_all (\<lambda>p. isMounted (snd p)) (inflight st)"

text \<open>
  The registered handlers are exactly what the pending cleanup will remove, and while the
  component is mounted that handler sits on the current socket.
\<close>

definition sub_inv :: "navbar_state \<Rightarrow> bool" where
  "sub_inv st =
     (listeners st = (case cleanup st of None \<Rightarrow> [] | Some l \<Rightarrow> [l]) \<and>
      (if alive st then map_option fst (cleanup st) = socket st else cleanup st = None))"

text \<open>
  Every registered handler was created by an earlier run of the second effect, so the
  handler of the next run is a new one.
\<close>

definition handlers_fresh :: "navbar_state \<Rightarrow> bool" where
  "handlers_fresh st = list_all (\<lambda>l. snd l < next_handler st) (listeners st)"

text \<open>Notifications used in the examples; any type other than the reply type would do.\<close>

abbreviation like_by :: "string option \<Rightarrow> notification" where
  "like_by h \<equiv> \<lparr>ntype = ''LIKE_ON_THREAD'', actor = \<lparr>handle = h\<rparr>\<rparr>"

abbreviation reply_by :: "string option \<Rightarrow> notification" where
  "reply_by h \<equiv> \<lparr>ntype = ''REPLY_ON_THREAD'', actor = \<lparr>handle = h\<rparr>\<rparr>"

section \<open>Auxiliary facts\<close>

subsection \<open>The navigation bar\<close>

lemmas navbar_defs = mount_def step_def seed_effect_def subscribe_effect_def run_cleanup_def
  loadUnreadNotifications_def loadUnreadNotifications_resume_def setUnreadCount_def
  incrementUnread_def handleNewNotification_def emit_def toast_description_def truthy_def
  nullish_def

lemma all_mounted_seed: "all_mounted st \<Longrightarrow> all_mounted (seed_effect u (st\<lparr>userId := u'\<rparr>))"
  by (simp add: all_mounted_def seed_effect_def loadUnreadNotifications_def setUnreadCount_def)

lemma inflight_subscribe [simp]: "inflight (subscribe_effect st) = inflight st"
  by (simp add: subscribe_effect_def split: option.split)

lemma inflight_cleanup [simp]: "inflight (run_cleanup st) = inflight st"
  by (simp add: run_cleanup_def split: option.split)

lemma inflight_handle [simp]: "inflight (handleNewNotification p st) = inflight st"
  by (simp add: handleNewNotification_def incrementUnread_def Let_def)

lemma inflight_emit [simp]: "inflight (emit s p st) = inflight st"
proof -
  have "inflight (fold (\<lambda>l. handleNewNotification p) ls st) = inflight st" for ls
    by (induction ls arbitrary: st) simp_all
  then show ?thesis by (simp add: emit_def)
qed

lemma inflight_resume [simp]: "inflight (loadUnreadNotifications_resume c r st) = inflight st"
  by (simp add: loadUnreadNotifications_resume_def setUnreadCount_def split: settled.split)

lemma all_mounted_step: "all_mounted st \<Longrightarrow> all_mounted (step e st)"
proof (cases e)
  case (SessionChange u)
  assume "all_mounted st"
  then show ?thesis using SessionChange all_mounted_seed [of st u u]
    by (simp add: step_def)
next
  case (FetchSettled rid r)
  assume "all_mounted st"
  then show ?thesis using FetchSettled
    by (auto simp: step_def all_mounted_def list_all_iff split: option.split)
qed (simp_all add: step_def all_mounted_def)

lemma all_mounted_mount: "all_mounted (mount u s)"
  by (simp add: mount_def all_mounted_def seed_effect_def loadUnreadNotifications_def
      setUnreadCount_def)

lemma all_mounted_run: "all_mounted st \<Longrightarrow> all_mounted (run evs st)"
  by (induction evs arbitrary: st) (simp_all add: all_mounted_step)

lemma inflight_isMounted:
  assumes "map_of (inflight (run evs (mount u s))) rid = Some c"
  shows "isMounted c"
proof -
  have "all_mounted (run evs (mount u s))"
    by (rule all_mounted_run [OF all_mounted_mount])
  moreover have "(rid, c) \<in> set (inflight (run evs (mount u s)))"
    using assms by (rule map_of_SomeD)
  ultimately show ?thesis by (auto simp: all_mounted_def list_all_iff)
qed


lemma sub_inv_subscribe:
  "listeners st = [] \<Longrightarrow> alive st \<Longrightarrow> sub_inv (subscribe_effect st)"
  by (simp add: sub_inv_def subscribe_effect_def split: option.split)

lemma listeners_cleanup: "sub_inv st \<Longrightarrow> listeners (run_cleanup st) = []"
  by (simp add: sub_inv_def run_cleanup_def split: option.splits)

lemma alive_cleanup [simp]: "alive (run_cleanup st) = alive st"
  by (simp add: run_cleanup_def split: option.split)

lemma sub_inv_seed: "sub_inv (seed_effect u (st\<lparr>userId := u'\<rparr>)) = sub_inv st"
  by (simp add: sub_inv_def seed_effect_def loadUnreadNotifications_def setUnreadCount_def)

lemma sub_inv_resume: "sub_inv (loadUnreadNotifications_resume c r (st\<lparr>inflight := xs\<rparr>)) = sub_inv st"
  by (simp add: sub_inv_def loadUnreadNotifications_resume_def setUnreadCount_def
      split: settled.split)

lemma sub_inv_handle: "sub_inv (handleNewNotification p st) = sub_inv st"
  by (simp add: sub_inv_def handleNewNotification_def incrementUnread_def Let_def)

lemma sub_inv_emit: "sub_inv (emit s p st) = sub_inv st"
proof -
  have "sub_inv (fold (\<lambda>l. handleNewNotification p) (ls :: (nat \<times> nat) list) st) = sub_inv st" for ls
    by (induction ls arbitrary: st) (simp_all add: sub_inv_handle)
  then show ?thesis by (simp add: emit_def)
qed

lemma sub_inv_step: "sub_inv st \<Longrightarrow> sub_inv (step e st)"
proof (cases e)
  case (SessionChange u)
  assume "sub_inv st"
  then show ?thesis using SessionChange by (simp add: step_def sub_inv_seed)
next
  case (SocketChange s)
  assume inv: "sub_inv st"
  show ?thesis
  proof (cases "alive st \<and> s \<noteq> socket st")
    case True
    have "sub_inv (subscribe_effect ((run_cleanup st)\<lparr>socket := s\<rparr>))"
      by (rule sub_inv_subscribe) (simp_all add: listeners_cleanup [OF inv] True)
    then show ?thesis using SocketChange True by (simp add: step_def)
  next
    case False
    then show ?thesis using SocketChange inv by (auto simp: step_def)
  qed
next
  case HookChange
  assume inv: "sub_inv st"
  show ?thesis
  proof (cases "alive st")
    case True
    have "sub_inv (subscribe_effect (run_cleanup st))"
      by (rule sub_inv_subscribe) (simp_all add: listeners_cleanup [OF inv] True)
    then show ?thesis using HookChange True by (simp add: step_def)
  next
    case False
    then show ?thesis using HookChange inv by (simp add: step_def)
  qed
next
  case (FetchSettled rid r)
  assume "sub_inv st"
  then show ?thesis using FetchSettled
    by (simp add: step_def sub_inv_resume split: option.split)
next
  case (Push s p)
  assume "sub_inv st"
  then show ?thesis using Push by (simp add: step_def sub_inv_emit)
next
  case Unmount
  assume inv: "sub_inv st"
  show ?thesis
  proof (cases "alive st")
    case True
    have "listeners (run_cleanup st) = []" by (rule listeners_cleanup [OF inv])
    moreover have "cleanup (run_cleanup st) = None"
      by (simp add: run_cleanup_def split: option.split)
    ultimately show ?thesis using Unmount True by (simp add: step_def sub_inv_def)
  next
    case False
    then show ?thesis using Unmount inv by (simp add: step_def)
  qed
qed

lemma sub_inv_mount: "sub_inv (mount u s)"
  by (simp add: mount_def sub_inv_def seed_effect_def loadUnreadNotifications_def
      setUnreadCount_def subscribe_effect_def split: option.split)

lemma sub_inv_run: "sub_inv st \<Longrightarrow> sub_inv (run evs st)"
  by (induction evs arbitrary: st) (simp_all add: sub_inv_step)

lemma sub_inv_reachable: "sub_inv (run evs (mount u s))"
  by (rule sub_inv_run [OF sub_inv_mount])

lemma listeners_alive:
  "sub_inv st \<Longrightarrow> alive st \<Longrightarrow>
   map fst (listeners st) = (case socket st of None \<Rightarrow> [] | Some k \<Rightarrow> [k])"
  by (cases "cleanup st"; cases "socket st") (auto simp: sub_inv_def)

lemma listeners_dead: "sub_inv st \<Longrightarrow> \<not> alive st \<Longrightarrow> listeners st = []"
  by (simp add: sub_inv_def)

lemma listeners_le1: "sub_inv st \<Longrightarrow> length (listeners st) \<le> 1"
  by (simp add: sub_inv_def split: option.splits)

lemma listeners_session: "listeners (step (SessionChange u) st) = listeners st"
  by (simp add: step_def seed_effect_def loadUnreadNotifications_def setUnreadCount_def)

lemma unreadCount_emit:
  "unreadCount (emit k p st) = unreadCount st + length (filter (\<lambda>l. fst l = k) (listeners st))"
proof -
  have "unreadCount (fold (\<lambda>l. handleNewNotification p) (ls :: (nat \<times> nat) list) st)
          = unreadCount st + length ls" for ls
    by (induction ls arbitrary: st)
       (simp_all add: handleNewNotification_def incrementUnread_def Let_def)
  then show ?thesis by (simp add: emit_def)
qed

lemma listeners_on_socket:
  "sub_inv st \<Longrightarrow> alive st \<Longrightarrow>
   length (filter (\<lambda>l. fst l = k) (listeners st)) = (if socket st = Some k then 1 else 0)"
  by (cases "cleanup st"; cases "socket st") (auto simp: sub_inv_def)

lemma fresh_subscribe: "handlers_fresh st \<Longrightarrow> handlers_fresh (subscribe_effect st)"
  by (auto simp: handlers_fresh_def subscribe_effect_def list_all_iff split: option.split)

lemma fresh_cleanup: "handlers_fresh st \<Longrightarrow> handlers_fresh (run_cleanup st)"
  by (auto simp: handlers_fresh_def run_cleanup_def list_all_iff split: option.split
      dest: notin_set_remove1)

lemma fresh_socket: "handlers_fresh (st\<lparr>socket := s\<rparr>) = handlers_fresh st"
  by (simp add: handlers_fresh_def)

lemma fresh_dead: "handlers_fresh (st\<lparr>alive := b\<rparr>) = handlers_fresh st"
  by (simp add: handlers_fresh_def)

lemma fresh_seed: "handlers_fresh (seed_effect u (st\<lparr>userId := u'\<rparr>)) = handlers_fresh st"
  by (simp add: handlers_fresh_def seed_effect_def loadUnreadNotifications_def
      setUnreadCount_def)

lemma fresh_resume:
  "handlers_fresh (loadUnreadNotifications_resume c r (st\<lparr>inflight := xs\<rparr>)) = handlers_fresh st"
  by (simp add: handlers_fresh_def loadUnreadNotifications_resume_def setUnreadCount_def
      split: settled.split)

lemma fresh_handle: "handlers_fresh (handleNewNotification p st) = handlers_fresh st"
  by (simp add: handlers_fresh_def handleNewNotification_def incrementUnread_def Let_def)

lemma fresh_emit: "handlers_fresh (emit s p st) = handlers_fresh st"
proof -
  have "handlers_fresh (fold (\<lambda>l. handleNewNotification p) (ls :: (nat \<times> nat) list) st)
          = handlers_fresh st" for ls
    by (induction ls arbitrary: st) (simp_all add: fresh_handle)
  then show ?thesis by (simp add: emit_def)
qed

lemma fresh_step: "handlers_fresh st \<Longrightarrow> handlers_fresh (step e st)"
proof (cases e)
  case (SessionChange u)
  assume "handlers_fresh st"
  then show ?thesis using SessionChange by (simp add: step_def fresh_seed)
next
  case (SocketChange s)
  assume "handlers_fresh st"
  then have "handlers_fresh (subscribe_effect ((run_cleanup st)\<lparr>socket := s\<rparr>))"
    by (intro fresh_subscribe) (simp add: fresh_socket fresh_cleanup)
  then show ?thesis using SocketChange \<open>handlers_fresh st\<close> by (simp add: step_def)
next
  case HookChange
  assume "handlers_fresh st"
  then have "handlers_fresh (subscribe_effect (run_cleanup st))"
    by (intro fresh_subscribe fresh_cleanup)
  then show ?thesis using HookChange \<open>handlers_fresh st\<close> by (simp add: step_def)
next
  case (FetchSettled rid r)
  assume "handlers_fresh st"
  then show ?thesis using FetchSettled
    by (simp add: step_def fresh_resume split: option.split)
next
  case (Push s p)
  assume "handlers_fresh st"
  then show ?thesis using Push by (simp add: step_def fresh_emit)
next
  case Unmount
  assume "handlers_fresh st"
  then show ?thesis using Unmount by (simp add: step_def fresh_dead fresh_cleanup)
qed

lemma fresh_mount: "handlers_fresh (mount u s)"
  by (simp add: mount_def handlers_fresh_def seed_effect_def loadUnreadNotifications_def
      setUnreadCount_def subscribe_effect_def split: option.split)

lemma fresh_run: "handlers_fresh st \<Longrightarrow> handlers_fresh (run evs st)"
  by (induction evs arbitrary: st) (simp_all add: fresh_step)

lemma fresh_reachable: "handlers_fresh (run evs (mount u s))"
  by (rule fresh_run [OF fresh_mount])

lemma listeners_resubscribe:
  assumes "sub_inv st"
  shows "listeners (subscribe_effect ((run_cleanup st)\<lparr>socket := s'\<rparr>))
           = (case s' of None \<Rightarrow> [] | Some k \<Rightarrow> [(k, next_handler st)])"
proof -
  have a: "listeners (run_cleanup st) = []" by (rule listeners_cleanup [OF assms])
  have b: "next_handler (run_cleanup st) = next_handler st"
    by (simp add: run_cleanup_def split: option.split)
  show ?thesis using a b by (simp add: subscribe_effect_def split: option.split)
qed

lemma listeners_hook:
  assumes "sub_inv st" and "alive st"
  shows "listeners (step HookChange st)
           = (case socket st of None \<Rightarrow> [] | Some k \<Rightarrow> [(k, next_handler st)])"
proof -
  have "(run_cleanup st)\<lparr>socket := socket st\<rparr> = run_cleanup st"
    by (simp add: run_cleanup_def split: option.split)
  then show ?thesis
    using listeners_resubscribe [OF assms(1), of "socket st"] assms(2)
    by (simp add: step_def)
qed

lemma listeners_socket_change:
  assumes "sub_inv st" and "alive st" and "s' \<noteq> socket st"
  shows "listeners (step (SocketChange s') st)
           = (case s' of None \<Rightarrow> [] | Some k \<Rightarrow> [(k, next_handler st)])"
  using listeners_resubscribe [OF assms(1), of s'] assms(2,3) by (simp add: step_def)

lemma emit_single:
  assumes "sub_inv st" and "alive st" and "socket st = Some k"
  shows "emit k p st = handleNewNotification p st"
proof -
  obtain l where l: "cleanup st = Some l"
    using assms by (cases "cleanup st") (auto simp: sub_inv_def)
  then have "listeners st = [l]" "fst l = k"
    using assms by (auto simp: sub_inv_def)
  then show ?thesis by (simp add: emit_def)
qed

lemma toasts_handle:
  "toasts (handleNewNotification p st)
     = toasts st @ [Toast ''New Notification'' (toast_description p)]"
  by (simp add: handleNewNotification_def incrementUnread_def Let_def)

lemma description_cases:
  "toast_description p
     = (case handle (actor p) of None \<Rightarrow> ''Someone'' | Some h \<Rightarrow> h) @
       (if ntype p = ''REPLY_ON_THREAD'' then '' commented to your thread''
        else '' liked your thread'')"
  by (simp add: toast_description_def nullish_def split: option.split)

subsection \<open>The profile form\<close>

lemma trim_whitespace:
  assumes "list_all isWhiteSpace s"
  shows "trim s = []"
proof -
  have "dropWhile isWhiteSpace s = []" using assms by (induction s) simp_all
  then show ?thesis by (simp only: trim_def rev.simps dropWhile.simps)
qed

lemma trim_Nil_iff: "trim s = [] \<longleftrightarrow> list_all isWhiteSpace s"
proof
  assume empty: "trim s = []"
  let ?a = "dropWhile isWhiteSpace s"
  have "?a = []"
  proof (rule ccontr)
    assume ne: "?a \<noteq> []"
    then have "\<not> isWhiteSpace (hd ?a)" by (rule hd_dropWhile)
    moreover have "hd ?a \<in> set (rev ?a)" using ne by simp
    ultimately have "dropWhile isWhiteSpace (rev ?a) \<noteq> []"
      unfolding dropWhile_eq_Nil_conv by blast
    then show False using empty by (simp add: trim_def)
  qed
  then have "\<forall>x\<in>set s. isWhiteSpace x" unfolding dropWhile_eq_Nil_conv .
  then show "list_all isWhiteSpace s" unfolding list_all_iff .
next
  assume "list_all isWhiteSpace s"
  then show "trim s = []" by (rule trim_whitespace)
qed

lemma last_dropWhile_ne: "dropWhile P xs \<noteq> [] \<Longrightarrow> last (dropWhile P xs) = last xs"
  by (induction xs) (auto split: if_splits)

lemma trim_ends:
  assumes "trim s \<noteq> []"
  shows "\<not> isWhiteSpace (hd (trim s)) \<and> \<not> isWhiteSpace (last (trim s))"
proof -
  let ?a = "dropWhile isWhiteSpace s"
  let ?b = "dropWhile isWhiteSpace (rev ?a)"
  have b: "?b \<noteq> []" using assms by (simp add: trim_def)
  then have hb: "\<not> isWhiteSpace (hd ?b)" by (rule hd_dropWhile)
  have a: "?a \<noteq> []"
  proof
    assume "?a = []"
    then have "?b = []" by (simp only: rev.simps dropWhile.simps)
    with b show False by contradiction
  qed
  then have ha: "\<not> isWhiteSpace (hd ?a)" by (rule hd_dropWhile)
  have last: "last (trim s) = hd ?b" using b by (simp add: trim_def last_rev)
  have "hd (trim s) = last ?b" using b by (simp add: trim_def hd_rev)
  also have "last ?b = last (rev ?a)" using b by (rule last_dropWhile_ne)
  also have "\<dots> = hd ?a" using a by (simp add: last_rev)
  finally show ?thesis using ha hb last by simp
qed

lemma toLowerCase_char_no_upper:
  assumes "isUpperCase c"
  shows "\<not> isUpperCase (char_of ((of_char c :: nat) + 0x20))"
proof -
  have "(of_char c :: nat) < 256" by (rule nat_of_char_less_256)
  then show ?thesis using assms by (auto simp: isUpperCase_def Let_def)
qed

lemma toLowerCase_no_upper: "list_all (\<lambda>c. \<not> isUpperCase c) (toLowerCase s)"
  by (induction s) (simp_all add: toLowerCase_def toLowerCase_char_no_upper)

lemma toLowerCase_Nil_iff [simp]: "toLowerCase s = [] \<longleftrightarrow> s = []"
  by (simp add: toLowerCase_def)

lemma list_all_takeWhile: "list_all P (takeWhile P xs)"
  by (induction xs) simp_all

lemma trim_decomp:
  "\<exists>a b. s = a @ trim s @ b \<and> list_all isWhiteSpace a \<and> list_all isWhiteSpace b"
proof -
  let ?x = "dropWhile isWhiteSpace s"
  let ?a = "takeWhile isWhiteSpace s"
  let ?b = "rev (takeWhile isWhiteSpace (rev ?x))"
  have "rev ?x = takeWhile isWhiteSpace (rev ?x) @ dropWhile isWhiteSpace (rev ?x)"
    by (simp only: takeWhile_dropWhile_id)
  then have "rev (rev ?x) = rev (takeWhile isWhiteSpace (rev ?x) @ dropWhile isWhiteSpace (rev ?x))"
    by (rule arg_cong)
  then have x: "?x = trim s @ ?b"
    by (simp only: rev_rev_ident rev_append trim_def)
  have "s = ?a @ ?x" by (simp only: takeWhile_dropWhile_id)
  then have "s = ?a @ trim s @ ?b" using x by (simp only:)
  moreover have "list_all isWhiteSpace ?a" by (rule list_all_takeWhile)
  moreover have "list_all isWhiteSpace ?b"
    using list_all_takeWhile [of isWhiteSpace "rev ?x"] by (simp only: list_all_rev)
  ultimately show ?thesis by blast
qed

lemma optionalText_Some: "optionalText (Some s) = (if list_all isWhiteSpace s then None else Some (trim s))"
  by (simp add: optionalText_def trim_Nil_iff)

lemma optionalText_nonempty: "optionalText v = Some t \<Longrightarrow> t \<noteq> []"
  by (cases v) (auto simp: optionalText_def split: if_splits)

lemma keep_if_truthy: "(if truthy (optionalText v) then Some (the (optionalText v)) else None) = optionalText v"
  by (cases "optionalText v") (auto simp: truthy_def dest: optionalText_nonempty)

lemma lower_if_truthy:
  "(if truthy (optionalText v) then Some (toLowerCase (the (optionalText v))) else None)
     = map_option toLowerCase (optionalText v)"
  by (cases "optionalText v") (auto simp: truthy_def dest: optionalText_nonempty)

lemma lookup_displayName:
  "onSubmit_payload vs ''displayName''
     = (if truthy (v_displayName vs) then Some (the (v_displayName vs)) else None)"
  by (simp add: onSubmit_payload_def Let_def)

lemma lookup_handle:
  "onSubmit_payload vs ''handle''
     = (if truthy (v_handle vs) then Some (toLowerCase (the (v_handle vs))) else None)"
  by (simp add: onSubmit_payload_def Let_def)

lemma lookup_bio:
  "onSubmit_payload vs ''bio'' = (if truthy (v_bio vs) then Some (the (v_bio vs)) else None)"
  by (simp add: onSubmit_payload_def Let_def)

lemma lookup_avatarUrl:
  "onSubmit_payload vs ''avatarUrl''
     = (if truthy (v_avatarUrl vs) then Some (the (v_avatarUrl vs)) else None)"
  by (simp add: onSubmit_payload_def Let_def)

lemma payload_other:
  "k \<noteq> ''displayName'' \<Longrightarrow> k \<noteq> ''handle'' \<Longrightarrow> k \<noteq> ''bio'' \<Longrightarrow> k \<noteq> ''avatarUrl'' \<Longrightarrow>
   onSubmit_payload vs k = None"
  by (simp add: onSubmit_payload_def Let_def)

lemma payload_displayName:
  "onSubmit_payload (ProfileSchema f) ''displayName'' = optionalText (v_displayName f)"
  by (simp only: lookup_displayName ProfileSchema_def ProfileFormValues.select_convs keep_if_truthy)

lemma payload_handle:
  "onSubmit_payload (ProfileSchema f) ''handle'' = map_option toLowerCase (optionalText (v_handle f))"
  by (simp only: lookup_handle ProfileSchema_def ProfileFormValues.select_convs lower_if_truthy)

lemma payload_bio:
  "onSubmit_payload (ProfileSchema f) ''bio'' = optionalText (v_bio f)"
  by (simp only: lookup_bio ProfileSchema_def ProfileFormValues.select_convs keep_if_truthy)

lemma payload_avatarUrl:
  "onSubmit_payload (ProfileSchema f) ''avatarUrl'' = optionalText (v_avatarUrl f)"
  by (simp only: lookup_avatarUrl ProfileSchema_def ProfileFormValues.select_convs keep_if_truthy)

lemma payload_key:
  assumes "onSubmit_payload vs k = Some t"
  shows "k = ''displayName'' \<or> k = ''handle'' \<or> k = ''bio'' \<or> k = ''avatarUrl''"
proof (rule ccontr)
  assume "\<not> ?thesis"
  then have "onSubmit_payload vs k = None" by (intro payload_other) blast+
  with assms show False by simp
qed

lemma payload_dom:
  "dom (onSubmit_payload vs) \<subseteq> {''displayName'', ''handle'', ''bio'', ''avatarUrl''}"
proof
  fix k assume "k \<in> dom (onSubmit_payload vs)"
  then obtain t where "onSubmit_payload vs k = Some t" by blast
  then have "k = ''displayName'' \<or> k = ''handle'' \<or> k = ''bio'' \<or> k = ''avatarUrl''"
    by (rule payload_key)
  then show "k \<in> {''displayName'', ''handle'', ''bio'', ''avatarUrl''}" by blast
qed

lemma payload_value_nonempty:
  assumes "onSubmit_payload (ProfileSchema f) k = Some t"
  shows "t \<noteq> []"
proof -
  consider "k = ''displayName''" | "k = ''handle''" | "k = ''bio''" | "k = ''avatarUrl''"
    using payload_key [OF assms] by blast
  then show ?thesis
  proof cases
    case 1
    then have "optionalText (v_displayName f) = Some t"
      using assms by (simp only: payload_displayName)
    then show ?thesis by (rule optionalText_nonempty)
  next
    case 2
    then have "map_option toLowerCase (optionalText (v_handle f)) = Some t"
      using assms by (simp only: payload_handle)
    then obtain h where "optionalText (v_handle f) = Some h" "t = toLowerCase h" by blast
    then show ?thesis using optionalText_nonempty [of "v_handle f" h] by simp
  next
    case 3
    then have "optionalText (v_bio f) = Some t"
      using assms by (simp only: payload_bio)
    then show ?thesis by (rule optionalText_nonempty)
  next
    case 4
    then have "optionalText (v_avatarUrl f) = Some t"
      using assms by (simp only: payload_avatarUrl)
    then show ?thesis by (rule optionalText_nonempty)
  qed
qed

lemma optionalText_empty: "optionalText (Some '''') = None"
  by (simp add: optionalText_def trim_def)

lemma optionalText_cases:
  "optionalText v
     = (case v of None \<Rightarrow> None
        | Some s \<Rightarrow> if list_all isWhiteSpace s then None else Some (trim s))"
  by (cases v) (simp_all add: optionalText_Some, simp add: optionalText_def)

lemma lower_optionalText_cases:
  "map_option toLowerCase (optionalText v)
     = (case v of None \<Rightarrow> None
        | Some s \<Rightarrow> if list_all isWhiteSpace s then None else Some (toLowerCase (trim s)))"
  by (simp add: optionalText_cases split: option.split)

section \<open>The seed and the push handler\<close>

text \<open>
  C1. The claim: when the seed fetch for session S1 is still pending while a seed for
  session S2 is issued, the later S1 response is discarded and never overwrites the count
  established for S2. The closure's \<open>isMounted\<close> is tested on completion, but the effect
  returns no cleanup that would clear it, so the test always passes. Evaluated on the run
  below: the component mounts with user u1 (request 0), the session changes to u2
  (request 1), request 1 resolves with five notifications and the counter is 5, then
  request 0 resolves with three and the counter of user u2 becomes 3.
\<close>

theorem stale_seed_overwrites:
  "map_of (inflight (mount (Some ''u1'') (Some 0))) 0
     = Some \<lparr>c_userId = Some ''u1'', isMounted = True\<rparr> \<and>
   map_of (inflight (run [SessionChange (Some ''u2'')] (mount (Some ''u1'') (Some 0)))) 1
     = Some \<lparr>c_userId = Some ''u2'', isMounted = True\<rparr> \<and>
   unreadCount (run [SessionChange (Some ''u2''),
                     FetchSettled 1 (Fulfilled [like_by None, like_by None, like_by None,
                                                like_by None, like_by None])]
                  (mount (Some ''u1'') (Some 0))) = 5 \<and>
   userId (run [SessionChange (Some ''u2''),
                     FetchSettled 1 (Fulfilled [like_by None, like_by None, like_by None,
                                                like_by None, like_by None]),
                     FetchSettled 0 (Fulfilled [reply_by None, reply_by None, reply_by None])]
                  (mount (Some ''u1'') (Some 0))) = Some ''u2'' \<and>
   unreadCount (run [SessionChange (Some ''u2''),
                     FetchSettled 1 (Fulfilled [like_by None, like_by None, like_by None,
                                                like_by None, like_by None]),
                     FetchSettled 0 (Fulfilled [reply_by None, reply_by None, reply_by None])]
                  (mount (Some ''u1'') (Some 0))) = 3"
  by (simp add: navbar_defs)


text \<open>
  C2. One run of the seed effect: without a session identity the counter becomes 0 and
  nothing else changes, in particular no request is issued; with one, a single request is
  issued and the counter waits. When a pending request of a reachable state resolves with
  a collection \<open>data\<close>, the counter becomes \<open>length data\<close>, whatever it was.
\<close>

theorem seed_sets_count:
  "(\<not> truthy uid \<longrightarrow> seed_effect uid st = st\<lparr>unreadCount := 0\<rparr>) \<and>
   (truthy uid \<longrightarrow>
      seed_effect uid st =
        st\<lparr>inflight := inflight st @ [(next_req st, \<lparr>c_userId = uid, isMounted = True\<rparr>)],
           next_req := Suc (next_req st)\<rparr>) \<and>
   (map_of (inflight (run evs (mount u s))) rid = Some c \<longrightarrow>
      unreadCount (step (FetchSettled rid (Fulfilled data)) (run evs (mount u s)))
        = length data)"
proof (intro conjI impI)
  assume "\<not> truthy uid"
  then show "seed_effect uid st = st\<lparr>unreadCount := 0\<rparr>"
    by (simp add: seed_effect_def loadUnreadNotifications_def setUnreadCount_def)
next
  assume "truthy uid"
  then show "seed_effect uid st =
      st\<lparr>inflight := inflight st @ [(next_req st, \<lparr>c_userId = uid, isMounted = True\<rparr>)],
         next_req := Suc (next_req st)\<rparr>"
    by (simp add: seed_effect_def loadUnreadNotifications_def)
next
  assume pending: "map_of (inflight (run evs (mount u s))) rid = Some c"
  then have "isMounted c" by (rule inflight_isMounted)
  then show "unreadCount (step (FetchSettled rid (Fulfilled data)) (run evs (mount u s)))
      = length data"
    using pending
    by (simp add: step_def loadUnreadNotifications_resume_def setUnreadCount_def)
qed


text \<open>The theorem at concrete inputs: no user, user u1, and a fetch of three after two pushes.\<close>

theorem seed_sets_count_witness:
  "\<not> truthy None \<and> truthy (Some ''u1'') \<and>
   seed_effect None (mount None None) = (mount None None)\<lparr>unreadCount := 0\<rparr> \<and>
   inflight (seed_effect (Some ''u1'') (mount None None))
     = [(0, \<lparr>c_userId = Some ''u1'', isMounted = True\<rparr>)] \<and>
   map_of (inflight (run [Push 0 (like_by None), Push 0 (like_by None)]
                       (mount (Some ''u1'') (Some 0)))) 0
     = Some \<lparr>c_userId = Some ''u1'', isMounted = True\<rparr> \<and>
   unreadCount (run [Push 0 (like_by None), Push 0 (like_by None)]
                  (mount (Some ''u1'') (Some 0))) = 2 \<and>
   unreadCount (step (FetchSettled 0 (Fulfilled [reply_by None, reply_by None, reply_by None]))
                  (run [Push 0 (like_by None), Push 0 (like_by None)]
                     (mount (Some ''u1'') (Some 0)))) = 3"
proof -
  have a: "\<not> truthy None" and b: "truthy (Some ''u1'')"
    by (simp_all add: truthy_def)
  have c: "map_of (inflight (run [Push 0 (like_by None), Push 0 (like_by None)]
                       (mount (Some ''u1'') (Some 0)))) 0
     = Some \<lparr>c_userId = Some ''u1'', isMounted = True\<rparr>"
    and d: "unreadCount (run [Push 0 (like_by None), Push 0 (like_by None)]
                  (mount (Some ''u1'') (Some 0))) = 2"
    and e: "inflight (mount None None) = []" "next_req (mount None None) = 0"
    by (simp_all add: navbar_defs)
  show ?thesis
    using a b c d e
      seed_sets_count [of None "mount None None" "[]" None None 0 "\<lparr>c_userId = None, isMounted = True\<rparr>" "[]"]
      seed_sets_count [of "Some ''u1''" "mount None None" "[]" None None 0 "\<lparr>c_userId = None, isMounted = True\<rparr>" "[]"]
      seed_sets_count [of None "mount None None" "[Push 0 (like_by None), Push 0 (like_by None)]"
        "Some ''u1''" "Some 0" 0 "\<lparr>c_userId = Some ''u1'', isMounted = True\<rparr>"
        "[reply_by None, reply_by None, reply_by None]"]
    by simp
qed


text \<open>
  C3. One call of the push handler adds exactly 1 to the counter and exactly one toast,
  whose description is the actor's handle, or \<open>Someone\<close> when it is absent, followed by
  the text chosen by the type: handle jay with a reply gives
  \<open>jay commented to your thread\<close>, no handle with a like gives
  \<open>Someone liked your thread\<close>.
\<close>

theorem push_increments_and_toasts:
  "unreadCount (handleNewNotification p st) = unreadCount st + 1 \<and>
   toasts (handleNewNotification p st) =
     toasts st @
     [Toast ''New Notification''
        ((case handle (actor p) of None \<Rightarrow> ''Someone'' | Some h \<Rightarrow> h) @
         (if ntype p = ''REPLY_ON_THREAD'' then '' commented to your thread''
          else '' liked your thread''))] \<and>
   toast_description (reply_by (Some ''jay'')) = ''jay commented to your thread'' \<and>
   toast_description (like_by None) = ''Someone liked your thread''"
  by (simp add: handleNewNotification_def incrementUnread_def toast_description_def
      nullish_def Let_def split: option.split)


text \<open>
  C4, as amended. When the session identity of a mounted component becomes absent, the
  seed effect resets the counter to 0. The push handler does not look at the session: a
  push event delivered afterwards on the current socket raises the cleared counter to 1,
  and one on any other socket leaves it at 0.
\<close>

theorem signout_resets_count:
  assumes "alive (run evs (mount u s))" and "userId (run evs (mount u s)) \<noteq> None"
  shows "unreadCount (step (SessionChange None) (run evs (mount u s))) = 0 \<and>
         userId (step (SessionChange None) (run evs (mount u s))) = None \<and>
         unreadCount (step (Push k p) (step (SessionChange None) (run evs (mount u s))))
           = (if socket (run evs (mount u s)) = Some k then 1 else 0)"
proof -
  let ?st = "run evs (mount u s)"
  let ?out = "step (SessionChange None) ?st"
  have out: "?out = ?st\<lparr>userId := None, unreadCount := 0\<rparr>"
  proof -
    have "None \<noteq> userId ?st" using assms(2) by (rule not_sym)
    then show ?thesis using assms(1)
      by (simp add: step_def seed_effect_def loadUnreadNotifications_def setUnreadCount_def
          truthy_def)
  qed
  have inv: "sub_inv ?out" by (rule sub_inv_step [OF sub_inv_reachable])
  have live: "alive ?out" using assms(1) by (simp add: out)
  have "unreadCount (step (Push k p) ?out)
          = unreadCount ?out + (if socket ?out = Some k then 1 else 0)"
    using listeners_on_socket [OF inv live, of k]
    by (simp add: step_def unreadCount_emit)
  then show ?thesis by (simp add: out)
qed


text \<open>The theorem at a run that seeds three notifications for user u1 and then signs out.\<close>

theorem signout_resets_count_witness:
  "alive (run [FetchSettled 0 (Fulfilled [like_by None, like_by None, like_by None])]
            (mount (Some ''u1'') (Some 0))) \<and>
   userId (run [FetchSettled 0 (Fulfilled [like_by None, like_by None, like_by None])]
             (mount (Some ''u1'') (Some 0))) \<noteq> None \<and>
   unreadCount (run [FetchSettled 0 (Fulfilled [like_by None, like_by None, like_by None])]
                  (mount (Some ''u1'') (Some 0))) = 3 \<and>
   unreadCount (step (SessionChange None)
                  (run [FetchSettled 0 (Fulfilled [like_by None, like_by None, like_by None])]
                     (mount (Some ''u1'') (Some 0)))) = 0 \<and>
   unreadCount (step (Push 0 (like_by (Some ''jay''))) (step (SessionChange None)
                  (run [FetchSettled 0 (Fulfilled [like_by None, like_by None, like_by None])]
                     (mount (Some ''u1'') (Some 0))))) = 1 \<and>
   unreadCount (step (Push 7 (like_by (Some ''jay''))) (step (SessionChange None)
                  (run [FetchSettled 0 (Fulfilled [like_by None, like_by None, like_by None])]
                     (mount (Some ''u1'') (Some 0))))) = 0"
proof -
  let ?evs = "[FetchSettled 0 (Fulfilled [like_by None, like_by None, like_by None])]"
  have a: "alive (run ?evs (mount (Some ''u1'') (Some 0)))"
    and b: "userId (run ?evs (mount (Some ''u1'') (Some 0))) \<noteq> None"
    and c: "unreadCount (run ?evs (mount (Some ''u1'') (Some 0))) = 3"
    and d: "socket (run ?evs (mount (Some ''u1'') (Some 0))) = Some 0"
    by (simp_all add: navbar_defs)
  show ?thesis
    using a b c d signout_resets_count [OF a b, of 0 "like_by (Some ''jay'')"]
      signout_resets_count [OF a b, of 7 "like_by (Some ''jay'')"]
    by simp
qed


text \<open>
  The claim as stated, that a push event after sign-out does not increment the cleared
  counter, fails: after the sign-out the counter is 0 and no user is present, and one push
  event makes it 1.
\<close>

theorem push_after_signout_counterexample:
  "userId (run [FetchSettled 0 (Fulfilled [like_by None, like_by None, like_by None]),
                SessionChange None]
             (mount (Some ''u1'') (Some 0))) = None \<and>
   unreadCount (run [FetchSettled 0 (Fulfilled [like_by None, like_by None, like_by None]),
                     SessionChange None]
                  (mount (Some ''u1'') (Some 0))) = 0 \<and>
   userId (run [FetchSettled 0 (Fulfilled [like_by None, like_by None, like_by None]),
                SessionChange None, Push 0 (like_by (Some ''jay''))]
             (mount (Some ''u1'') (Some 0))) = None \<and>
   unreadCount (run [FetchSettled 0 (Fulfilled [like_by None, like_by None, like_by None]),
                     SessionChange None, Push 0 (like_by (Some ''jay''))]
                  (mount (Some ''u1'') (Some 0))) = 1"
  by (simp add: navbar_defs)


text \<open>
  C5. When a pending seed request of a reachable state fails, the counter keeps its value,
  the console receives one entry, the fixed message of the \<open>catch\<close> block, and no toast is
  shown.
\<close>

theorem failed_seed_keeps_count:
  "map_of (inflight (run evs (mount u s))) rid = Some c \<Longrightarrow>
   unreadCount (step (FetchSettled rid Rejected) (run evs (mount u s)))
     = unreadCount (run evs (mount u s)) \<and>
   console (step (FetchSettled rid Rejected) (run evs (mount u s)))
     = console (run evs (mount u s)) @ [LogText ''Error ocuured''] \<and>
   toasts (step (FetchSettled rid Rejected) (run evs (mount u s)))
     = toasts (run evs (mount u s))"
proof -
  assume pending: "map_of (inflight (run evs (mount u s))) rid = Some c"
  then have "isMounted c" by (rule inflight_isMounted)
  then show ?thesis using pending
    by (simp add: step_def loadUnreadNotifications_resume_def)
qed


text \<open>The theorem at a run with one push event before the request of user u1 fails.\<close>

theorem failed_seed_keeps_count_witness:
  "map_of (inflight (run [Push 0 (reply_by (Some ''jay''))] (mount (Some ''u1'') (Some 0)))) 0
     = Some \<lparr>c_userId = Some ''u1'', isMounted = True\<rparr> \<and>
   unreadCount (run [Push 0 (reply_by (Some ''jay'')), FetchSettled 0 Rejected]
                  (mount (Some ''u1'') (Some 0))) = 1 \<and>
   console (run [Push 0 (reply_by (Some ''jay'')), FetchSettled 0 Rejected]
              (mount (Some ''u1'') (Some 0))) = [LogText ''Error ocuured''] \<and>
   toasts (run [Push 0 (reply_by (Some ''jay'')), FetchSettled 0 Rejected]
             (mount (Some ''u1'') (Some 0)))
     = [Toast ''New Notification'' ''jay commented to your thread'']"
proof -
  have h: "map_of (inflight (run [Push 0 (reply_by (Some ''jay''))]
                     (mount (Some ''u1'') (Some 0)))) 0
     = Some \<lparr>c_userId = Some ''u1'', isMounted = True\<rparr>"
    by (simp add: navbar_defs)
  have before: "unreadCount (run [Push 0 (reply_by (Some ''jay''))]
                   (mount (Some ''u1'') (Some 0))) = 1"
     "console (run [Push 0 (reply_by (Some ''jay''))] (mount (Some ''u1'') (Some 0))) = []"
     "toasts (run [Push 0 (reply_by (Some ''jay''))] (mount (Some ''u1'') (Some 0)))
        = [Toast ''New Notification'' ''jay commented to your thread'']"
    by (simp_all add: navbar_defs)
  show ?thesis using h before failed_seed_keeps_count [OF h] by simp
qed


text \<open>
  C6, as amended. The subscription follows the socket, not the session. In every reachable
  state at most one handler is registered; while the component is mounted there is exactly
  one, on the current socket, when a socket is present, and none when it is absent; after
  the component is torn down there is none; and a session change leaves the registered
  handlers as they are. Every registered handler is older than the next one to be created,
  and a render of the mounted component with a new \<open>incrementUnread\<close> or a new socket
  leaves exactly that next handler, on the socket of the render, or nothing when the
  socket is absent: the handler registered before is removed, not kept beside the new one.
\<close>

theorem subscription_follows_socket:
  "length (listeners (run evs (mount u s))) \<le> 1 \<and>
   (alive (run evs (mount u s)) \<longrightarrow>
      map fst (listeners (run evs (mount u s))) =
        (case socket (run evs (mount u s)) of None \<Rightarrow> [] | Some k \<Rightarrow> [k])) \<and>
   (\<not> alive (run evs (mount u s)) \<longrightarrow> listeners (run evs (mount u s)) = []) \<and>
   listeners (step Unmount (run evs (mount u s))) = [] \<and>
   listeners (step (SessionChange u') (run evs (mount u s))) = listeners (run evs (mount u s)) \<and>
   list_all (\<lambda>l. snd l < next_handler (run evs (mount u s))) (listeners (run evs (mount u s))) \<and>
   (alive (run evs (mount u s)) \<longrightarrow>
      listeners (step HookChange (run evs (mount u s))) =
        (case socket (run evs (mount u s)) of
           None \<Rightarrow> [] | Some k \<Rightarrow> [(k, next_handler (run evs (mount u s)))])) \<and>
   (alive (run evs (mount u s)) \<and> s' \<noteq> socket (run evs (mount u s)) \<longrightarrow>
      listeners (step (SocketChange s') (run evs (mount u s))) =
        (case s' of None \<Rightarrow> [] | Some k \<Rightarrow> [(k, next_handler (run evs (mount u s)))]))"
proof -
  let ?st = "run evs (mount u s)"
  have inv: "sub_inv ?st" by (rule sub_inv_reachable)
  have inv': "sub_inv (step Unmount ?st)" by (rule sub_inv_step [OF inv])
  have dead: "\<not> alive (step Unmount ?st)" by (simp add: step_def)
  have fresh: "list_all (\<lambda>l. snd l < next_handler ?st) (listeners ?st)"
    using fresh_reachable [of evs u s] by (simp only: handlers_fresh_def)
  show ?thesis
    using listeners_le1 [OF inv] listeners_alive [OF inv] listeners_dead [OF inv]
      listeners_dead [OF inv' dead] listeners_session [of u' ?st] fresh
      listeners_hook [OF inv] listeners_socket_change [OF inv, of s']
    by blast
qed

text \<open>
  The theorem at runs from a mount with user u1 on socket 0, where handler 0 is
  registered: a new socket 1 replaces it by handler 1 on socket 1, a new
  \<open>incrementUnread\<close> then replaces that by handler 2; after the teardown nothing is
  registered, whatever the socket provider does next; losing the socket removes the handler.
\<close>

theorem subscription_follows_socket_witness:
  "alive (run [SocketChange (Some 1)] (mount (Some ''u1'') (Some 0))) \<and>
   listeners (mount (Some ''u1'') (Some 0)) = [(0, 0)] \<and>
   listeners (run [SocketChange (Some 1)] (mount (Some ''u1'') (Some 0))) = [(1, 1)] \<and>
   listeners (run [SocketChange (Some 1), HookChange] (mount (Some ''u1'') (Some 0)))
     = [(1, 2)] \<and>
   \<not> alive (run [SocketChange (Some 1), Unmount, SocketChange (Some 2)]
              (mount (Some ''u1'') (Some 0))) \<and>
   listeners (run [SocketChange (Some 1), Unmount, SocketChange (Some 2)]
                (mount (Some ''u1'') (Some 0))) = [] \<and>
   alive (mount (Some ''u1'') (Some 0)) \<and>
   listeners (run [SocketChange None] (mount (Some ''u1'') (Some 0))) = []"
proof -
  let ?m = "mount (Some ''u1'') (Some 0)"
  have m: "alive ?m" "socket ?m = Some 0" "next_handler ?m = 1" "listeners ?m = [(0, 0)]"
    by (simp_all add: navbar_defs)
  have a: "alive (run [SocketChange (Some 1)] ?m)"
    "socket (run [SocketChange (Some 1)] ?m) = Some 1"
    "next_handler (run [SocketChange (Some 1)] ?m) = 2"
    by (simp_all add: navbar_defs)
  have b: "\<not> alive (run [SocketChange (Some 1), Unmount, SocketChange (Some 2)] ?m)"
    by (simp add: navbar_defs)
  have ne: "Some (1::nat) \<noteq> socket (run [] ?m)" "None \<noteq> socket (run [] ?m)"
    using m(2) by simp_all
  have r1: "listeners (step (SocketChange (Some 1)) (run [] ?m)) = [(1, 1)]"
    using subscription_follows_socket [of "[]" "Some ''u1''" "Some 0" None "Some 1"]
      m(1,3) ne(1) by simp
  have r2: "listeners (step HookChange (run [SocketChange (Some 1)] ?m)) = [(1, 2)]"
    using subscription_follows_socket
      [of "[SocketChange (Some 1)]" "Some ''u1''" "Some 0" None None] a
    by simp
  have r3: "listeners (run [SocketChange (Some 1), Unmount, SocketChange (Some 2)] ?m) = []"
    using subscription_follows_socket
      [of "[SocketChange (Some 1), Unmount, SocketChange (Some 2)]" "Some ''u1''" "Some 0"
          None None] b
    by blast
  have r4: "listeners (step (SocketChange None) (run [] ?m)) = []"
    using subscription_follows_socket [of "[]" "Some ''u1''" "Some 0" None None]
      m(1) ne(2) by simp
  have unroll: "run [SocketChange (Some 1)] ?m = step (SocketChange (Some 1)) (run [] ?m)"
    "run [SocketChange (Some 1), HookChange] ?m
       = step HookChange (run [SocketChange (Some 1)] ?m)"
    "run [SocketChange None] ?m = step (SocketChange None) (run [] ?m)"
    by simp_all
  show ?thesis using m(1,4) a(1) b r1 r2 r3 r4 unfolding unroll by blast
qed

text \<open>
  The claim as stated fails in two ways: with an active session and no socket there is no
  subscription at all, and when the session changes from u1 to u2 on the same socket the
  handler registered for u1 stays registered.
\<close>

theorem subscription_per_session_counterexample:
  "userId (mount (Some ''u1'') None) = Some ''u1'' \<and>
   listeners (mount (Some ''u1'') None) = [] \<and>
   listeners (mount (Some ''u1'') (Some 0)) = [(0, 0)] \<and>
   userId (step (SessionChange (Some ''u2'')) (mount (Some ''u1'') (Some 0))) = Some ''u2'' \<and>
   listeners (step (SessionChange (Some ''u2'')) (mount (Some ''u1'') (Some 0))) = [(0, 0)]"
  by (simp add: navbar_defs)


text \<open>
  C9. The toast that the push handler emits: for every type other than the exact string
  \<open>REPLY_ON_THREAD\<close> its description is the actor's handle, or \<open>Someone\<close>, followed by
  \<open>liked your thread\<close>, and it is the handle followed by \<open>commented to your thread\<close> for
  that type only. The same holds for the toast that a push event on the current socket of
  a mounted component adds in any reachable state.
\<close>

theorem reply_type_decides_text:
  "(ntype p \<noteq> ''REPLY_ON_THREAD'' \<longrightarrow>
      toasts (handleNewNotification p st) =
        toasts st @ [Toast ''New Notification''
          ((case handle (actor p) of None \<Rightarrow> ''Someone'' | Some h \<Rightarrow> h) @
           '' liked your thread'')]) \<and>
   (toasts (handleNewNotification p st) =
        toasts st @ [Toast ''New Notification''
          ((case handle (actor p) of None \<Rightarrow> ''Someone'' | Some h \<Rightarrow> h) @
           '' commented to your thread'')]
      \<longleftrightarrow> ntype p = ''REPLY_ON_THREAD'') \<and>
   (alive (run evs (mount u s)) \<and> socket (run evs (mount u s)) = Some k \<and>
    ntype p \<noteq> ''REPLY_ON_THREAD'' \<longrightarrow>
      toasts (step (Push k p) (run evs (mount u s))) =
        toasts (run evs (mount u s)) @ [Toast ''New Notification''
          ((case handle (actor p) of None \<Rightarrow> ''Someone'' | Some h \<Rightarrow> h) @
           '' liked your thread'')]) \<and>
   (alive (run evs (mount u s)) \<and> socket (run evs (mount u s)) = Some k \<longrightarrow>
      (toasts (step (Push k p) (run evs (mount u s))) =
        toasts (run evs (mount u s)) @ [Toast ''New Notification''
          ((case handle (actor p) of None \<Rightarrow> ''Someone'' | Some h \<Rightarrow> h) @
           '' commented to your thread'')]
       \<longleftrightarrow> ntype p = ''REPLY_ON_THREAD''))"
proof -
  let ?R = "run evs (mount u s)"
  let ?who = "case handle (actor p) of None \<Rightarrow> ''Someone'' | Some h \<Rightarrow> h"
  have h1: "toasts (handleNewNotification p x) =
        toasts x @ [Toast ''New Notification'' (?who @ '' liked your thread'')]"
    if "ntype p \<noteq> ''REPLY_ON_THREAD''" for x
    using that by (simp add: toasts_handle description_cases)
  have h2: "(toasts (handleNewNotification p x) =
        toasts x @ [Toast ''New Notification'' (?who @ '' commented to your thread'')])
      \<longleftrightarrow> ntype p = ''REPLY_ON_THREAD''" for x
    by (simp add: toasts_handle description_cases)
  have push: "step (Push k p) ?R = handleNewNotification p ?R"
    if "alive ?R" "socket ?R = Some k"
    using emit_single [OF sub_inv_reachable that] by (simp add: step_def)
  show ?thesis using h1 [of st] h2 [of st] h1 [of ?R] h2 [of ?R] push by presburger
qed

text \<open>
  The theorem at push events on the socket of a freshly mounted component: a type in the
  wrong case, a type outside the enumerated set, and the reply type.
\<close>

theorem reply_type_decides_text_witness:
  "''reply_on_thread'' \<noteq> ''REPLY_ON_THREAD'' \<and>
   alive (mount (Some ''u1'') (Some 0)) \<and> socket (mount (Some ''u1'') (Some 0)) = Some 0 \<and>
   toasts (step (Push 0 \<lparr>ntype = ''reply_on_thread'', actor = \<lparr>handle = Some ''jay''\<rparr>\<rparr>)
             (mount (Some ''u1'') (Some 0)))
     = [Toast ''New Notification'' ''jay liked your thread''] \<and>
   toasts (step (Push 0 \<lparr>ntype = ''MENTION'', actor = \<lparr>handle = None\<rparr>\<rparr>)
             (mount (Some ''u1'') (Some 0)))
     = [Toast ''New Notification'' ''Someone liked your thread''] \<and>
   toasts (step (Push 0 (reply_by (Some ''jay''))) (mount (Some ''u1'') (Some 0)))
     = [Toast ''New Notification'' ''jay commented to your thread''] \<and>
   toasts (handleNewNotification \<lparr>ntype = ''MENTION'', actor = \<lparr>handle = None\<rparr>\<rparr>
             (mount (Some ''u1'') (Some 0)))
     = [Toast ''New Notification'' ''Someone liked your thread'']"
proof -
  let ?m = "mount (Some ''u1'') (Some 0)"
  have m: "alive ?m" "socket ?m = Some 0" "toasts ?m = []"
    by (simp_all add: navbar_defs)
  have ne: "''reply_on_thread'' \<noteq> ''REPLY_ON_THREAD''" "''MENTION'' \<noteq> ''REPLY_ON_THREAD''"
    by simp_all
  show ?thesis
    using m ne
      reply_type_decides_text
        [of "\<lparr>ntype = ''reply_on_thread'', actor = \<lparr>handle = Some ''jay''\<rparr>\<rparr>" ?m "[]"
            "Some ''u1''" "Some 0" 0]
      reply_type_decides_text
        [of "\<lparr>ntype = ''MENTION'', actor = \<lparr>handle = None\<rparr>\<rparr>" ?m "[]" "Some ''u1''" "Some 0" 0]
      reply_type_decides_text [of "reply_by (Some ''jay'')" ?m "[]" "Some ''u1''" "Some 0" 0]
    by simp
qed

section \<open>The profile form\<close>

text \<open>
  C7. The body of \<open>PATCH /api/me\<close> built from the submitted form: each of the four keys
  carries the trimmed field value, the handle in lower case, and is absent when the field
  is empty; no other key occurs and no value is the empty string; the handle that is sent
  contains no upper-case letter; and this body is what the submission sends.
\<close>

theorem payload_omits_empty_lowercases_handle:
  "onSubmit_payload (ProfileSchema f) ''displayName'' = optionalText (v_displayName f) \<and>
   onSubmit_payload (ProfileSchema f) ''handle''
     = map_option toLowerCase (optionalText (v_handle f)) \<and>
   onSubmit_payload (ProfileSchema f) ''bio'' = optionalText (v_bio f) \<and>
   onSubmit_payload (ProfileSchema f) ''avatarUrl'' = optionalText (v_avatarUrl f) \<and>
   dom (onSubmit_payload (ProfileSchema f))
     \<subseteq> {''displayName'', ''handle'', ''bio'', ''avatarUrl''} \<and>
   '''' \<notin> ran (onSubmit_payload (ProfileSchema f)) \<and>
   (v_displayName f = Some '''' \<longrightarrow> onSubmit_payload (ProfileSchema f) ''displayName'' = None) \<and>
   (v_handle f = Some '''' \<longrightarrow> onSubmit_payload (ProfileSchema f) ''handle'' = None) \<and>
   (v_bio f = Some '''' \<longrightarrow> onSubmit_payload (ProfileSchema f) ''bio'' = None) \<and>
   (v_avatarUrl f = Some '''' \<longrightarrow> onSubmit_payload (ProfileSchema f) ''avatarUrl'' = None) \<and>
   (\<forall>h. onSubmit_payload (ProfileSchema f) ''handle'' = Some h \<longrightarrow>
        list_all (\<lambda>c. \<not> isUpperCase c) h) \<and>
   patches (handleSubmit st) = patches st @ [onSubmit_payload (ProfileSchema (form_values st))]"
proof -
  have empty: "'''' \<notin> ran (onSubmit_payload (ProfileSchema f))"
  proof
    assume "'''' \<in> ran (onSubmit_payload (ProfileSchema f))"
    then obtain k where "onSubmit_payload (ProfileSchema f) k = Some ''''"
      by (auto simp: ran_def)
    then show False using payload_value_nonempty by blast
  qed
  have lower: "list_all (\<lambda>c. \<not> isUpperCase c) h"
    if "onSubmit_payload (ProfileSchema f) ''handle'' = Some h" for h
  proof -
    from that obtain r where "h = toLowerCase r" by (auto simp: payload_handle)
    then show ?thesis by (simp add: toLowerCase_no_upper)
  qed
  have sent: "patches (handleSubmit st)
      = patches st @ [onSubmit_payload (ProfileSchema (form_values st))]"
    by (simp add: handleSubmit_def onSubmit_def)
  show ?thesis
    using empty lower sent payload_dom [of "ProfileSchema f"]
    by (simp add: payload_displayName payload_handle payload_bio payload_avatarUrl
        optionalText_empty)
qed


text \<open>
  The theorem at a form with a padded display name, a mixed-case handle, an empty bio and
  no avatar.
\<close>

theorem payload_omits_empty_lowercases_handle_witness:
  "onSubmit_payload
     (ProfileSchema \<lparr>v_displayName = Some '' Jay D '', v_handle = Some ''JayDee'',
                     v_bio = Some '''', v_avatarUrl = None\<rparr>) ''displayName''
     = Some ''Jay D'' \<and>
   onSubmit_payload
     (ProfileSchema \<lparr>v_displayName = Some '' Jay D '', v_handle = Some ''JayDee'',
                     v_bio = Some '''', v_avatarUrl = None\<rparr>) ''handle''
     = Some ''jaydee'' \<and>
   onSubmit_payload
     (ProfileSchema \<lparr>v_displayName = Some '' Jay D '', v_handle = Some ''JayDee'',
                     v_bio = Some '''', v_avatarUrl = None\<rparr>) ''bio'' = None \<and>
   onSubmit_payload
     (ProfileSchema \<lparr>v_displayName = Some '' Jay D '', v_handle = Some ''JayDee'',
                     v_bio = Some '''', v_avatarUrl = None\<rparr>) ''avatarUrl'' = None \<and>
   list_all (\<lambda>c. \<not> isUpperCase c) ''jaydee''"
proof -
  let ?f = "\<lparr>v_displayName = Some '' Jay D '', v_handle = Some ''JayDee'',
             v_bio = Some '''', v_avatarUrl = None\<rparr>"
  let ?st = "\<lparr>form_values = ?f, isLoading = False, isSaving = False, patches = [],
              notices = []\<rparr>"
  note t = payload_omits_empty_lowercases_handle [of ?f ?st]
  have a: "optionalText (Some '' Jay D '') = Some ''Jay D''"
    and c: "optionalText None = None"
    by (simp_all add: optionalText_def trim_def isWhiteSpace_def)
  have b: "map_option toLowerCase (optionalText (Some ''JayDee'')) = Some ''jaydee''"
    by code_simp
  have sel: "v_displayName ?f = Some '' Jay D ''" "v_handle ?f = Some ''JayDee''"
    "v_bio ?f = Some ''''" "v_avatarUrl ?f = None"
    by simp_all
  have p1: "onSubmit_payload (ProfileSchema ?f) ''displayName'' = Some ''Jay D''"
    using t unfolding sel a by blast
  have p2: "onSubmit_payload (ProfileSchema ?f) ''handle'' = Some ''jaydee''"
    using t unfolding sel b by blast
  have p3: "onSubmit_payload (ProfileSchema ?f) ''bio'' = None"
    using t sel(3) by blast
  have p4: "onSubmit_payload (ProfileSchema ?f) ''avatarUrl'' = None"
    using t unfolding sel c by blast
  have p5: "list_all (\<lambda>c. \<not> isUpperCase c) ''jaydee''"
    using t p2 by blast
  show ?thesis using p1 p2 p3 p4 p5 by blast
qed


text \<open>
  C8, as amended. When the update request fails, the \<open>catch\<close> block is empty: no notice
  is shown, the fields keep the values the user entered, and the saving flag is lowered so
  that the form can be submitted again. Only a successful update shows a toast.
\<close>

theorem failed_update_is_silent:
  "notices (onSubmit_resume Rejected (handleSubmit st)) = notices st \<and>
   form_values (onSubmit_resume Rejected (handleSubmit st)) = form_values st \<and>
   isSaving (onSubmit_resume Rejected (handleSubmit st)) = False \<and>
   isLoading (onSubmit_resume Rejected (handleSubmit st)) = isLoading st \<and>
   notices (onSubmit_resume (Fulfilled r) (handleSubmit st))
     = notices st @ [ToastSuccess ''Profile updated successfully''
                       ''your changes have been saved'']"
  by (simp add: onSubmit_resume_def handleSubmit_def onSubmit_def)


text \<open>
  The claim as stated, that a failing submission surfaces a notice, fails: after a rejected
  request no toast has been shown.
\<close>

theorem failed_update_notice_counterexample:
  "notices (onSubmit_resume Rejected (handleSubmit
      \<lparr>form_values = \<lparr>v_displayName = Some ''Jay'', v_handle = Some ''JayDee'',
                       v_bio = Some '''', v_avatarUrl = Some ''''\<rparr>,
       isLoading = False, isSaving = False, patches = [], notices = []\<rparr>)) = []"
  by (simp add: onSubmit_resume_def handleSubmit_def onSubmit_def)


text \<open>
  C10. The schema trims every field before it tests for the empty string. For each of the
  four fields the body that a submission sends has no key when the field is undefined or
  made of white space only, and otherwise carries the trimmed field, in lower case for
  the handle. The trimmed string is the field between two runs of white space, and unless
  the field is all white space it is not empty and neither starts nor ends with a
  white-space character. So a field made of white space only gives, for each of the four
  fields, the body an empty field gives, with the key absent.
\<close>

theorem whitespace_only_field_is_absent:
  "onSubmit_payload (ProfileSchema f) ''displayName''
     = (case v_displayName f of None \<Rightarrow> None
        | Some x \<Rightarrow> if list_all isWhiteSpace x then None else Some (trim x)) \<and>
   onSubmit_payload (ProfileSchema f) ''handle''
     = (case v_handle f of None \<Rightarrow> None
        | Some x \<Rightarrow> if list_all isWhiteSpace x then None else Some (toLowerCase (trim x))) \<and>
   onSubmit_payload (ProfileSchema f) ''bio''
     = (case v_bio f of None \<Rightarrow> None
        | Some x \<Rightarrow> if list_all isWhiteSpace x then None else Some (trim x)) \<and>
   onSubmit_payload (ProfileSchema f) ''avatarUrl''
     = (case v_avatarUrl f of None \<Rightarrow> None
        | Some x \<Rightarrow> if list_all isWhiteSpace x then None else Some (trim x)) \<and>
   patches (handleSubmit st) = patches st @ [onSubmit_payload (ProfileSchema (form_values st))] \<and>
   (\<exists>a b. s = a @ trim s @ b \<and> list_all isWhiteSpace a \<and> list_all isWhiteSpace b) \<and>
   (\<not> list_all isWhiteSpace s \<longrightarrow>
      trim s \<noteq> [] \<and> \<not> isWhiteSpace (hd (trim s)) \<and> \<not> isWhiteSpace (last (trim s))) \<and>
   optionalText (Some s) = (if list_all isWhiteSpace s then None else Some (trim s)) \<and>
   (\<forall>t. optionalText (Some s) = Some t \<longrightarrow>
        t \<noteq> [] \<and> \<not> isWhiteSpace (hd t) \<and> \<not> isWhiteSpace (last t) \<and>
        (\<exists>a b. s = a @ t @ b \<and> list_all isWhiteSpace a \<and> list_all isWhiteSpace b)) \<and>
   (list_all isWhiteSpace s \<longrightarrow>
      onSubmit_payload (ProfileSchema (f\<lparr>v_displayName := Some s\<rparr>))
        = onSubmit_payload (ProfileSchema (f\<lparr>v_displayName := Some ''''\<rparr>)) \<and>
      onSubmit_payload (ProfileSchema (f\<lparr>v_displayName := Some s\<rparr>)) ''displayName'' = None \<and>
      onSubmit_payload (ProfileSchema (f\<lparr>v_handle := Some s\<rparr>))
        = onSubmit_payload (ProfileSchema (f\<lparr>v_handle := Some ''''\<rparr>)) \<and>
      onSubmit_payload (ProfileSchema (f\<lparr>v_handle := Some s\<rparr>)) ''handle'' = None \<and>
      onSubmit_payload (ProfileSchema (f\<lparr>v_bio := Some s\<rparr>))
        = onSubmit_payload (ProfileSchema (f\<lparr>v_bio := Some ''''\<rparr>)) \<and>
      onSubmit_payload (ProfileSchema (f\<lparr>v_bio := Some s\<rparr>)) ''bio'' = None \<and>
      onSubmit_payload (ProfileSchema (f\<lparr>v_avatarUrl := Some s\<rparr>))
        = onSubmit_payload (ProfileSchema (f\<lparr>v_avatarUrl := Some ''''\<rparr>)) \<and>
      onSubmit_payload (ProfileSchema (f\<lparr>v_avatarUrl := Some s\<rparr>)) ''avatarUrl'' = None)"
proof (intro conjI impI allI)
  show "onSubmit_payload (ProfileSchema f) ''displayName''
     = (case v_displayName f of None \<Rightarrow> None
        | Some x \<Rightarrow> if list_all isWhiteSpace x then None else Some (trim x))"
    by (simp only: payload_displayName optionalText_cases)
  show "onSubmit_payload (ProfileSchema f) ''handle''
     = (case v_handle f of None \<Rightarrow> None
        | Some x \<Rightarrow> if list_all isWhiteSpace x then None else Some (toLowerCase (trim x)))"
    by (simp only: payload_handle lower_optionalText_cases)
  show "onSubmit_payload (ProfileSchema f) ''bio''
     = (case v_bio f of None \<Rightarrow> None
        | Some x \<Rightarrow> if list_all isWhiteSpace x then None else Some (trim x))"
    by (simp only: payload_bio optionalText_cases)
  show "onSubmit_payload (ProfileSchema f) ''avatarUrl''
     = (case v_avatarUrl f of None \<Rightarrow> None
        | Some x \<Rightarrow> if list_all isWhiteSpace x then None else Some (trim x))"
    by (simp only: payload_avatarUrl optionalText_cases)
  show "patches (handleSubmit st)
      = patches st @ [onSubmit_payload (ProfileSchema (form_values st))]"
    by (simp add: handleSubmit_def onSubmit_def)
  show "\<exists>a b. s = a @ trim s @ b \<and> list_all isWhiteSpace a \<and> list_all isWhiteSpace b"
    by (rule trim_decomp)
  show "optionalText (Some s) = (if list_all isWhiteSpace s then None else Some (trim s))"
    by (rule optionalText_Some)
next
  assume "\<not> list_all isWhiteSpace s"
  then show ne: "trim s \<noteq> []" by (simp only: trim_Nil_iff not_False_eq_True)
  then have ends: "\<not> isWhiteSpace (hd (trim s)) \<and> \<not> isWhiteSpace (last (trim s))"
    by (rule trim_ends)
  show "\<not> isWhiteSpace (hd (trim s))" using ends by blast
  show "\<not> isWhiteSpace (last (trim s))" using ends by blast
next
  fix t assume some: "optionalText (Some s) = Some t"
  then have t: "t = trim s" by (simp add: optionalText_Some split: if_splits)
  show ne: "t \<noteq> []" using some by (rule optionalText_nonempty)
  have ends: "\<not> isWhiteSpace (hd t) \<and> \<not> isWhiteSpace (last t)"
    using ne trim_ends [of s] unfolding t by blast
  show "\<not> isWhiteSpace (hd t)" using ends by blast
  show "\<not> isWhiteSpace (last t)" using ends by blast
  show "\<exists>a b. s = a @ t @ b \<and> list_all isWhiteSpace a \<and> list_all isWhiteSpace b"
    unfolding t by (rule trim_decomp)
next
  assume ws: "list_all isWhiteSpace s"
  then have none: "optionalText (Some s) = None" by (simp add: optionalText_Some)
  show "onSubmit_payload (ProfileSchema (f\<lparr>v_displayName := Some s\<rparr>))
        = onSubmit_payload (ProfileSchema (f\<lparr>v_displayName := Some ''''\<rparr>))"
    by (simp add: ProfileSchema_def none optionalText_empty)
  show "onSubmit_payload (ProfileSchema (f\<lparr>v_handle := Some s\<rparr>))
        = onSubmit_payload (ProfileSchema (f\<lparr>v_handle := Some ''''\<rparr>))"
    by (simp add: ProfileSchema_def none optionalText_empty)
  show "onSubmit_payload (ProfileSchema (f\<lparr>v_bio := Some s\<rparr>))
        = onSubmit_payload (ProfileSchema (f\<lparr>v_bio := Some ''''\<rparr>))"
    by (simp add: ProfileSchema_def none optionalText_empty)
  show "onSubmit_payload (ProfileSchema (f\<lparr>v_avatarUrl := Some s\<rparr>))
        = onSubmit_payload (ProfileSchema (f\<lparr>v_avatarUrl := Some ''''\<rparr>))"
    by (simp add: ProfileSchema_def none optionalText_empty)
  show "onSubmit_payload (ProfileSchema (f\<lparr>v_displayName := Some s\<rparr>)) ''displayName'' = None"
    by (simp add: payload_displayName none)
  show "onSubmit_payload (ProfileSchema (f\<lparr>v_handle := Some s\<rparr>)) ''handle'' = None"
    by (simp add: payload_handle none)
  show "onSubmit_payload (ProfileSchema (f\<lparr>v_bio := Some s\<rparr>)) ''bio'' = None"
    by (simp add: payload_bio none)
  show "onSubmit_payload (ProfileSchema (f\<lparr>v_avatarUrl := Some s\<rparr>)) ''avatarUrl'' = None"
    by (simp add: payload_avatarUrl none)
qed

text \<open>
  The theorem at a form with a padded display name, a padded mixed-case handle, and a bio
  of a space, a tab, a line feed and a no-break space.
\<close>

theorem whitespace_only_field_is_absent_witness:
  "list_all isWhiteSpace [CHR '' '', CHR 0x09, CHR 0x0A, CHR 0xA0] \<and>
   \<not> list_all isWhiteSpace ''  Jay D '' \<and>
   optionalText (Some [CHR '' '', CHR 0x09, CHR 0x0A, CHR 0xA0]) = None \<and>
   optionalText (Some ''  Jay D '') = Some ''Jay D'' \<and>
   \<not> isWhiteSpace (hd ''Jay D'') \<and> \<not> isWhiteSpace (last ''Jay D'') \<and>
   onSubmit_payload
     (ProfileSchema \<lparr>v_displayName = Some ''  Jay D '', v_handle = Some '' JayDee'',
                     v_bio = Some [CHR '' '', CHR 0x09, CHR 0x0A, CHR 0xA0],
                     v_avatarUrl = Some ''''\<rparr>) ''displayName'' = Some ''Jay D'' \<and>
   onSubmit_payload
     (ProfileSchema \<lparr>v_displayName = Some ''  Jay D '', v_handle = Some '' JayDee'',
                     v_bio = Some [CHR '' '', CHR 0x09, CHR 0x0A, CHR 0xA0],
                     v_avatarUrl = Some ''''\<rparr>) ''handle'' = Some ''jaydee'' \<and>
   onSubmit_payload
     (ProfileSchema \<lparr>v_displayName = Some ''  Jay D '', v_handle = Some '' JayDee'',
                     v_bio = Some [CHR '' '', CHR 0x09, CHR 0x0A, CHR 0xA0],
                     v_avatarUrl = Some ''''\<rparr>) ''bio'' = None \<and>
   onSubmit_payload
     (ProfileSchema \<lparr>v_displayName = Some ''  Jay D '', v_handle = Some '' JayDee'',
                     v_bio = Some [CHR '' '', CHR 0x09, CHR 0x0A, CHR 0xA0],
                     v_avatarUrl = Some ''''\<rparr>)
   = onSubmit_payload
     (ProfileSchema \<lparr>v_displayName = Some ''  Jay D '', v_handle = Some '' JayDee'',
                     v_bio = Some '''', v_avatarUrl = Some ''''\<rparr>)"
proof -
  let ?ws = "[CHR '' '', CHR 0x09, CHR 0x0A, CHR 0xA0]"
  let ?f = "\<lparr>v_displayName = Some ''  Jay D '', v_handle = Some '' JayDee'',
             v_bio = Some '''', v_avatarUrl = Some ''''\<rparr>"
  let ?g = "\<lparr>v_displayName = Some ''  Jay D '', v_handle = Some '' JayDee'',
             v_bio = Some ?ws, v_avatarUrl = Some ''''\<rparr>"
  let ?st = "\<lparr>form_values = ?g, isLoading = False, isSaving = False, patches = [],
              notices = []\<rparr>"
  have ws: "list_all isWhiteSpace ?ws" by (simp add: isWhiteSpace_def)
  have nws: "\<not> list_all isWhiteSpace ''  Jay D ''" "\<not> list_all isWhiteSpace '' JayDee''"
    by (simp_all add: isWhiteSpace_def)
  have tr: "trim ''  Jay D '' = ''Jay D''" "trim '' JayDee'' = ''JayDee''"
    by (simp_all add: trim_def isWhiteSpace_def)
  have low: "toLowerCase ''JayDee'' = ''jaydee''" by code_simp
  note t = whitespace_only_field_is_absent [of ?f ?st ?ws]
  note n = whitespace_only_field_is_absent [of ?g ?st "''  Jay D ''"]
  have sel: "v_displayName ?g = Some ''  Jay D ''" "v_handle ?g = Some '' JayDee''"
    "v_bio ?g = Some ?ws"
    by simp_all
  have none: "optionalText (Some ?ws) = None" using t ws by (simp only: if_True)
  have some: "optionalText (Some ''  Jay D '') = Some ''Jay D''"
    using n nws(1) tr(1) by (simp only: if_False)
  have ends: "\<not> isWhiteSpace (hd ''Jay D'') \<and> \<not> isWhiteSpace (last ''Jay D'')"
    using n some by blast
  have p1: "onSubmit_payload (ProfileSchema ?g) ''displayName'' = Some ''Jay D''"
    using n nws(1) unfolding sel by (simp add: tr)
  have p2: "onSubmit_payload (ProfileSchema ?g) ''handle'' = Some ''jaydee''"
    using n nws(2) unfolding sel by (simp add: tr low)
  have p3: "onSubmit_payload (ProfileSchema ?g) ''bio'' = None"
    using n ws unfolding sel by simp
  have body: "onSubmit_payload (ProfileSchema (?f\<lparr>v_bio := Some ?ws\<rparr>))
                = onSubmit_payload (ProfileSchema (?f\<lparr>v_bio := Some ''''\<rparr>))"
    using t ws by blast
  have upd: "?f\<lparr>v_bio := Some ?ws\<rparr> = ?g" "?f\<lparr>v_bio := Some ''''\<rparr> = ?f"
    by simp_all
  show ?thesis using ws nws(1) none some ends p1 p2 p3 body unfolding upd by blast
qed

end
